theory Spec2Isabelle
  imports Complex_Main
begin

section \<open>The Anscombe regression script\<close>

text \<open>
  The script \<^verbatim>\<open>ai_python_copilot.py\<close> loads a table with the columns
  \<^verbatim>\<open>dataset\<close>, \<^verbatim>\<open>x\<close> and \<^verbatim>\<open>y\<close>, walks over the distinct values of
  the \<^verbatim>\<open>dataset\<close> column, hands the \<^verbatim>\<open>x\<close> and \<^verbatim>\<open>y\<close> columns of each group to
  \<^verbatim>\<open>scipy.stats.linregress\<close> and appends one dict per group to the list
  \<^verbatim>\<open>results\<close>.

  The regression routine itself is a third-party function on double precision numbers
  and no part of the script.  It is a parameter \<open>linregress\<close> of the embedding: a
  function from the two columns to either an exception or the five values the script
  unpacks.  The number type \<open>'v\<close> stays abstract; the only arithmetic the script does
  on it is \<^verbatim>\<open>r_value**2\<close>.

  For the properties that speak of the values of the regression, the parameter is
  instantiated with \<open>regress\<close>, the calculator that section 4.1 of the specification
  describes, over real numbers.
\<close>

subsection \<open>Data\<close>

text \<open>One row of the table \<^verbatim>\<open>anscombe\<close>: the columns dataset, x, y.\<close>

type_synonym 'v sample = "string \<times> 'v \<times> 'v"

definition col_dataset :: "'v sample \<Rightarrow> string" where
  "col_dataset s = fst s"

definition col_x :: "'v sample \<Rightarrow> 'v" where
  "col_x s = fst (snd s)"

definition col_y :: "'v sample \<Rightarrow> 'v" where
  "col_y s = snd (snd s)"

text \<open>
  What \<^verbatim>\<open>slope, intercept, r_value, p_value, std_err = stats.linregress(...)\<close>
  unpacks.
\<close>

type_synonym 'v linregress_result = "'v \<times> 'v \<times> 'v \<times> 'v \<times> 'v"

text \<open>
  A value stored in a result dict is the group label (a string) or a number.  A dict
  is an association list, in insertion order.
\<close>

datatype 'v cell = Str string | Num 'v

type_synonym 'v entry = "(string \<times> 'v cell) list"

subsection \<open>Table operations\<close>

text \<open>
  \<^verbatim>\<open>Series.unique()\<close>: one pass over the column with a table of the values seen so
  far; a value is emitted the first time it is met.
\<close>

fun unique_from :: "'a list \<Rightarrow> 'a list \<Rightarrow> 'a list" where
  "unique_from seen [] = []"
| "unique_from seen (v # vs) =
     (if v \<in> set seen then unique_from seen vs
      else v # unique_from (v # seen) vs)"

definition unique :: "'a list \<Rightarrow> 'a list" where
  "unique vs = unique_from [] vs"

text \<open>
  \<^verbatim>\<open>anscombe[anscombe['dataset'] == dataset_name]\<close>: the rows whose label is
  \<open>dataset_name\<close>, in table order.
\<close>

definition select_rows :: "'v sample list \<Rightarrow> string \<Rightarrow> 'v sample list" where
  "select_rows anscombe dataset_name =
     filter (\<lambda>s. col_dataset s = dataset_name) anscombe"

subsection \<open>The loop\<close>

text \<open>
  The body of the \<^verbatim>\<open>for\<close> loop, iterated over the labels still to be processed,
  with the list \<^verbatim>\<open>results\<close> passed along.  An exception raised by the regression
  routine is not caught by the script: it ends the loop, and no table is built.
\<close>

fun regression_loop ::
  "('v::power list \<Rightarrow> 'v list \<Rightarrow> 'e + 'v linregress_result) \<Rightarrow> 'v sample list \<Rightarrow>
   string list \<Rightarrow> 'v entry list \<Rightarrow> 'e + 'v entry list" where
  "regression_loop linregress anscombe [] results = Inr results"
| "regression_loop linregress anscombe (dataset_name # rest) results =
     (let subset = select_rows anscombe dataset_name in
      case linregress (map col_x subset) (map col_y subset) of
        Inl err \<Rightarrow> Inl err
      | Inr (slope, intercept, r_value, p_value, std_err) \<Rightarrow>
          regression_loop linregress anscombe rest
            (results @
              [[(''Dataset'', Str dataset_name),
                (''Intercept'', Num intercept),
                (''Slope'', Num slope),
                (''R-squared'', Num (r_value ^ 2))]]))"

text \<open>
  The script from \<^verbatim>\<open>results = []\<close> to \<^verbatim>\<open>df_results = pd.DataFrame(results)\<close>:
  the table has one row per dict, in list order.
\<close>

definition df_results ::
  "('v::power list \<Rightarrow> 'v list \<Rightarrow> 'e + 'v linregress_result) \<Rightarrow> 'v sample list \<Rightarrow>
   'e + 'v entry list" where
  "df_results linregress anscombe =
     regression_loop linregress anscombe (unique (map col_dataset anscombe)) []"

subsection \<open>Notions used to state the properties\<close>

text \<open>The position at which a value first occurs in a column.\<close>

definition first_occurrence :: "'a \<Rightarrow> 'a list \<Rightarrow> nat" where
  "first_occurrence a vs = length (takeWhile (\<lambda>v. v \<noteq> a) vs)"

text \<open>The dict the loop body builds for a label from the values it keeps.\<close>

definition kept_entry :: "string \<Rightarrow> 'v::power linregress_result \<Rightarrow> 'v entry" where
  "kept_entry dataset_name res =
     (case res of (slope, intercept, r_value, p_value, std_err) \<Rightarrow>
        [(''Dataset'', Str dataset_name),
         (''Intercept'', Num intercept),
         (''Slope'', Num slope),
         (''R-squared'', Num (r_value ^ 2))])"

text \<open>What the regression routine returns for the group of a label.\<close>

definition group_fit ::
  "('v list \<Rightarrow> 'v list \<Rightarrow> 'e + 'v linregress_result) \<Rightarrow> 'v sample list \<Rightarrow> string \<Rightarrow>
   'e + 'v linregress_result" where
  "group_fit linregress anscombe dataset_name =
     linregress (map col_x (select_rows anscombe dataset_name))
                (map col_y (select_rows anscombe dataset_name))"

text \<open>A result of the regression routine without its p-value and standard error.\<close>

definition without_p_and_stderr ::
  "'e + 'v linregress_result \<Rightarrow> 'e + ('v \<times> 'v \<times> 'v)" where
  "without_p_and_stderr r =
     (case r of
        Inl err \<Rightarrow> Inl err
      | Inr (slope, intercept, r_value, p_value, std_err) \<Rightarrow>
          Inr (slope, intercept, r_value))"

subsection \<open>The regression calculator of the specification\<close>

text \<open>
  A numeric value: a real number, or the result of a quotient whose denominator is
  zero.  Rounding is not modelled.  Squaring, the one operation of the script, yields
  an undefined value from an undefined one.
\<close>

datatype number = Finite real | Undefined

instantiation number :: power
begin

definition one_number :: number where
  "one_number = Finite 1"

fun times_number :: "number \<Rightarrow> number \<Rightarrow> number" where
  "times_number (Finite a) (Finite b) = Finite (a * b)"
| "times_number _ _ = Undefined"

instance ..

end

text \<open>The one error kind of the specification.\<close>

datatype error = InvalidInput

text \<open>The real numbers of a column, when every value of it is one.\<close>

fun finite_values :: "number list \<Rightarrow> real list option" where
  "finite_values [] = Some []"
| "finite_values (Finite a # vs) = map_option ((#) a) (finite_values vs)"
| "finite_values (Undefined # vs) = None"

text \<open>\<open>mean = (1/n) \<Sigma> x\<^sub>i\<close>\<close>

definition mean :: "real list \<Rightarrow> real" where
  "mean xs = sum_list xs / real (length xs)"

text \<open>\<open>\<Sigma> (x\<^sub>i - mean_x)\<^sup>2\<close>\<close>

definition sq_dev :: "real list \<Rightarrow> real" where
  "sq_dev xs = sum_list (map (\<lambda>x. (x - mean xs)\<^sup>2) xs)"

text \<open>\<open>\<Sigma> (x\<^sub>i - mean_x) (y\<^sub>i - mean_y)\<close>\<close>

definition cross_dev :: "real list \<Rightarrow> real list \<Rightarrow> real" where
  "cross_dev xs ys = sum_list (map2 (\<lambda>x y. (x - mean xs) * (y - mean ys)) xs ys)"

text \<open>A quotient of real numbers; it has no value when the denominator is zero.\<close>

definition quotient :: "real \<Rightarrow> real \<Rightarrow> number" where
  "quotient a b = (if b = 0 then Undefined else Finite (a / b))"

text \<open>
  Modelled from the spec: the regression routine behind \<^verbatim>\<open>stats.linregress\<close>, which
  is library code and not in the repository.  Section 4.1 of the specification gives
  the preconditions (equal lengths, \<open>n \<ge> 2\<close>, non-zero x-variance, else
  \<^verbatim>\<open>InvalidInput\<close>) and the formulae of slope, intercept and \<open>r\<close>; section 9 treats
  values that are no numbers as invalid input.  The specification gives no formula for
  the p-value and the standard error: they are whatever \<open>ancillary\<close> returns.
\<close>

definition regress ::
  "(real list \<Rightarrow> real list \<Rightarrow> number \<times> number) \<Rightarrow> number list \<Rightarrow> number list \<Rightarrow>
   error + number linregress_result" where
  "regress ancillary nxs nys =
     (case (finite_values nxs, finite_values nys) of
        (Some xs, Some ys) \<Rightarrow>
          if length xs = length ys \<and> 2 \<le> length xs \<and> sq_dev xs \<noteq> 0 then
            let slope = cross_dev xs ys / sq_dev xs;
                intercept = mean ys - slope * mean xs;
                r = quotient (cross_dev xs ys) (sqrt (sq_dev xs * sq_dev ys))
            in Inr (Finite slope, Finite intercept, r,
                    fst (ancillary xs ys), snd (ancillary xs ys))
          else Inl InvalidInput
      | _ \<Rightarrow> Inl InvalidInput)"

text \<open>Ancillary statistics that are left undefined.\<close>

definition no_ancillary :: "real list \<Rightarrow> real list \<Rightarrow> number \<times> number" where
  "no_ancillary xs ys = (Undefined, Undefined)"

subsection \<open>Notions used to state the properties of the calculator\<close>

text \<open>The variance of a sequence, written with its elements: \<open>(1/n) \<Sigma> (x\<^sub>i - mean)\<^sup>2\<close>.\<close>

definition variance :: "real list \<Rightarrow> real" where
  "variance xs =
     (\<Sum>i<length xs. (xs ! i - (\<Sum>j<length xs. xs ! j) / real (length xs))\<^sup>2)
       / real (length xs)"

text \<open>
  The sum of the squared vertical residuals of the samples against the line
  \<open>y = slope \<sqdot> x + intercept\<close>.
\<close>

definition residual_sum :: "real list \<Rightarrow> real list \<Rightarrow> real \<Rightarrow> real \<Rightarrow> real" where
  "residual_sum xs ys slope intercept =
     (\<Sum>i<length xs. (ys ! i - (slope * xs ! i + intercept))\<^sup>2)"

text \<open>A value that is a number of the closed interval from 0 to 1.\<close>

fun in_unit_interval :: "number \<Rightarrow> bool" where
  "in_unit_interval (Finite q) = (0 \<le> q \<and> q \<le> 1)"
| "in_unit_interval Undefined = False"

text \<open>A value that is a number.\<close>

fun is_finite :: "number \<Rightarrow> bool" where
  "is_finite (Finite q) = True"
| "is_finite Undefined = False"

section \<open>Properties of \<open>unique\<close>\<close>

lemma set_unique_from: "set (unique_from seen vs) = set vs - set seen"
  by (induction vs arbitrary: seen) auto

lemma distinct_unique_from: "distinct (unique_from seen vs)"
  by (induction vs arbitrary: seen) (auto simp: set_unique_from)

lemma first_occurrence_Cons:
  "first_occurrence a (v # vs) = (if v = a then 0 else Suc (first_occurrence a vs))"
  by (simp add: first_occurrence_def)

lemma sorted_unique_from:
  "sorted_wrt (\<lambda>a b. first_occurrence a vs < first_occurrence b vs) (unique_from seen vs)"
proof (induction vs arbitrary: seen)
  case Nil
  show ?case by simp
next
  case (Cons v vs)
  have shift: "sorted_wrt (\<lambda>a b. first_occurrence a (v # vs) < first_occurrence b (v # vs))
      (unique_from seen' vs)" if "v \<in> set seen'" for seen'
  proof (rule sorted_wrt_mono_rel [OF _ Cons.IH [of seen']])
    fix a b
    assume "a \<in> set (unique_from seen' vs)" "b \<in> set (unique_from seen' vs)"
      and less: "first_occurrence a vs < first_occurrence b vs"
    with that have "a \<noteq> v" "b \<noteq> v" by (auto simp: set_unique_from)
    with less show "first_occurrence a (v # vs) < first_occurrence b (v # vs)"
      by (simp add: first_occurrence_Cons)
  qed
  show ?case
  proof (cases "v \<in> set seen")
    case True
    with shift [of seen] show ?thesis by simp
  next
    case False
    have "first_occurrence v (v # vs) < first_occurrence b (v # vs)"
      if "b \<in> set (unique_from (v # seen) vs)" for b
      using that by (auto simp: set_unique_from first_occurrence_Cons)
    with False shift [of "v # seen"] show ?thesis by simp
  qed
qed

lemma set_unique: "set (unique vs) = set vs"
  by (simp add: unique_def set_unique_from)

lemma distinct_unique: "distinct (unique vs)"
  by (simp add: unique_def distinct_unique_from)

lemma sorted_unique:
  "sorted_wrt (\<lambda>a b. first_occurrence a vs < first_occurrence b vs) (unique vs)"
  by (simp add: unique_def sorted_unique_from)

section \<open>Properties of the loop\<close>

lemma regression_loop_Cons:
  "regression_loop linregress anscombe (n # rest) results =
     (case group_fit linregress anscombe n of
        Inl err \<Rightarrow> Inl err
      | Inr res \<Rightarrow>
          regression_loop linregress anscombe rest (results @ [kept_entry n res]))"
  by (simp add: group_fit_def kept_entry_def Let_def split: sum.splits prod.splits)

text \<open>
  A loop that runs to its end has appended, for each label in turn, the dict built
  from the regression of that label's own rows.
\<close>

lemma regression_loop_Inr:
  assumes "regression_loop linregress anscombe names results = Inr rows"
  shows "(\<forall>n \<in> set names. \<exists>res. group_fit linregress anscombe n = Inr res) \<and>
         rows = results @
           map (\<lambda>n. kept_entry n (projr (group_fit linregress anscombe n))) names"
  using assms
proof (induction names arbitrary: results)
  case Nil
  then show ?case by simp
next
  case (Cons n rest)
  from Cons.prems obtain res where fit: "group_fit linregress anscombe n = Inr res"
    and run: "regression_loop linregress anscombe rest (results @ [kept_entry n res]) = Inr rows"
    unfolding regression_loop_Cons by (auto split: sum.splits)
  from Cons.IH [OF run] fit show ?case by (cases res) auto
qed

lemma regression_loop_cong:
  assumes "\<And>xs ys. without_p_and_stderr (lr xs ys) = without_p_and_stderr (lr' xs ys)"
  shows "regression_loop lr anscombe names results =
         regression_loop lr' anscombe names results"
proof (induction names arbitrary: results)
  case Nil
  show ?case by simp
next
  case (Cons n rest)
  let ?xs = "map col_x (select_rows anscombe n)"
  let ?ys = "map col_y (select_rows anscombe n)"
  from assms have "without_p_and_stderr (lr ?xs ?ys) = without_p_and_stderr (lr' ?xs ?ys)" .
  then show ?case
    by (auto simp: without_p_and_stderr_def Cons.IH Let_def split: sum.splits prod.splits)
qed

lemma kept_entry_keys:
  "map fst (kept_entry n res) = [''Dataset'', ''Intercept'', ''Slope'', ''R-squared'']"
  by (cases res) (simp add: kept_entry_def)

lemma kept_entry_label: "map_of (kept_entry n res) ''Dataset'' = Some (Str n)"
  by (cases res) (simp add: kept_entry_def)

text \<open>
  In a table that was built, the entries with the label of a group are exactly one: the
  dict built from the regression of that group.
\<close>

lemma filter_label_map:
  assumes "distinct names" and "g \<in> set names" and "\<And>n. label (f n) = k n" and "inj k"
  shows "filter (\<lambda>e. label e = k g) (map f names) = [f g]"
  using assms(1,2)
proof (induction names)
  case Nil
  then show ?case by simp
next
  case (Cons n names)
  have eq: "k n = k g \<longleftrightarrow> n = g" for n using assms(4) by (auto dest: injD)
  show ?case
  proof (cases "n = g")
    case True
    with Cons.prems have "g \<notin> set names" by simp
    then have "filter (\<lambda>e. label e = k g) (map f names) = []"
      by (auto simp: filter_empty_conv assms(3) eq)
    with True show ?thesis by (simp add: assms(3))
  next
    case False
    with Cons show ?thesis by (simp add: assms(3) eq)
  qed
qed

lemma df_results_entry:
  assumes run: "df_results linregress anscombe = Inr rows"
    and g: "g \<in> set (map col_dataset anscombe)"
    and fit: "group_fit linregress anscombe g = Inr res"
  shows "filter (\<lambda>e. map_of e ''Dataset'' = Some (Str g)) rows = [kept_entry g res]"
proof -
  let ?f = "\<lambda>n. kept_entry n (projr (group_fit linregress anscombe n))"
  let ?names = "unique (map col_dataset anscombe)"
  from run have rows: "rows = map ?f ?names"
    using regression_loop_Inr [of linregress anscombe ?names "[]" rows]
    by (simp add: df_results_def)
  from distinct_unique g
  have "filter (\<lambda>e. map_of e ''Dataset'' = Some (Str g)) (map ?f ?names) = [?f g]"
    by (intro filter_label_map) (simp_all add: set_unique kept_entry_label inj_def)
  then show ?thesis by (simp add: rows fit)
qed

section \<open>Properties of the regression calculator\<close>

text \<open>Sums over a list, written with its elements.\<close>

lemma finite_values_map_Finite: "finite_values (map Finite xs) = Some xs"
  by (induction xs) simp_all

lemma sum_list_nth: "sum_list (map f xs) = (\<Sum>i<length xs. f (xs ! i))"
proof -
  have "sum_list (map f xs) = (\<Sum>i = 0..<length (map f xs). map f xs ! i)"
    by (rule sum_list_sum_nth)
  also have "\<dots> = (\<Sum>i<length xs. f (xs ! i))"
    by (simp add: atLeast0LessThan)
  finally show ?thesis .
qed

lemma sum_list_map2_nth:
  assumes "length ys = length xs"
  shows "sum_list (map2 f xs ys) = (\<Sum>i<length xs. f (xs ! i) (ys ! i))"
proof -
  have "sum_list (map2 f xs ys) = (\<Sum>i = 0..<length (map2 f xs ys). map2 f xs ys ! i)"
    by (rule sum_list_sum_nth)
  also have "\<dots> = (\<Sum>i<length xs. f (xs ! i) (ys ! i))"
    using assms by (simp add: atLeast0LessThan)
  finally show ?thesis .
qed

lemma mean_nth: "mean xs = (\<Sum>i<length xs. xs ! i) / real (length xs)"
  using sum_list_nth [of "\<lambda>x. x" xs] by (simp add: mean_def)

lemma sq_dev_nth: "sq_dev xs = (\<Sum>i<length xs. (xs ! i - mean xs)\<^sup>2)"
  by (simp add: sq_dev_def sum_list_nth)

lemma cross_dev_nth:
  "length ys = length xs \<Longrightarrow>
   cross_dev xs ys = (\<Sum>i<length xs. (xs ! i - mean xs) * (ys ! i - mean ys))"
  by (simp add: cross_dev_def sum_list_map2_nth)

lemma variance_sq_dev: "variance xs = sq_dev xs / real (length xs)"
  by (simp add: variance_def sq_dev_nth mean_nth)

text \<open>
  The sum of squared residuals of any line, split into the part the line cannot change,
  the part that depends on its slope and the part that depends on its intercept.
\<close>

lemma sum_dev_zero:
  fixes x :: "nat \<Rightarrow> real"
  assumes "0 < n"
  shows "(\<Sum>i<n. x i - (\<Sum>j<n. x j) / real n) = 0"
  using assms by (simp add: sum_subtractf)

lemma residual_decomposition:
  fixes x y :: "nat \<Rightarrow> real"
  assumes n: "0 < n"
    and mx: "mx = (\<Sum>i<n. x i) / real n" and my: "my = (\<Sum>i<n. y i) / real n"
  shows "(\<Sum>i<n. (y i - (b * x i + a))\<^sup>2) =
         (\<Sum>i<n. (y i - my)\<^sup>2) - 2 * b * (\<Sum>i<n. (x i - mx) * (y i - my))
           + b\<^sup>2 * (\<Sum>i<n. (x i - mx)\<^sup>2) + real n * (my - b * mx - a)\<^sup>2"
proof -
  define c where "c = my - b * mx - a"
  define dx where "dx i = x i - mx" for i
  define dy where "dy i = y i - my" for i
  have dx0: "(\<Sum>i<n. dx i) = 0"
    using sum_dev_zero [OF n, of x] by (simp add: mx dx_def)
  have dy0: "(\<Sum>i<n. dy i) = 0"
    using sum_dev_zero [OF n, of y] by (simp add: my dy_def)
  have "(y i - (b * x i + a))\<^sup>2 =
      (dy i)\<^sup>2 - (2 * b) * (dx i * dy i) + b\<^sup>2 * (dx i)\<^sup>2
        + (2 * c) * dy i - (2 * c * b) * dx i + c\<^sup>2" for i
    by (simp add: c_def dx_def dy_def power2_eq_square algebra_simps)
  then have "(\<Sum>i<n. (y i - (b * x i + a))\<^sup>2) =
      (\<Sum>i<n. (dy i)\<^sup>2 - (2 * b) * (dx i * dy i) + b\<^sup>2 * (dx i)\<^sup>2
        + (2 * c) * dy i - (2 * c * b) * dx i + c\<^sup>2)"
    by simp
  also have "\<dots> = (\<Sum>i<n. (dy i)\<^sup>2) - (2 * b) * (\<Sum>i<n. dx i * dy i)
        + b\<^sup>2 * (\<Sum>i<n. (dx i)\<^sup>2)
        + (2 * c) * (\<Sum>i<n. dy i) - (2 * c * b) * (\<Sum>i<n. dx i) + real n * c\<^sup>2"
    by (simp only: sum.distrib sum_subtractf sum_distrib_left [symmetric] sum_constant
        card_lessThan)
  finally show ?thesis
    by (simp add: dx0 dy0) (simp add: c_def dx_def dy_def)
qed

lemma residual_sum_decomposition:
  assumes len: "length ys = length xs" and n: "0 < length xs"
  shows "residual_sum xs ys b a =
         sq_dev ys - 2 * b * cross_dev xs ys + b\<^sup>2 * sq_dev xs
           + real (length xs) * (mean ys - b * mean xs - a)\<^sup>2"
proof -
  have my: "mean ys = (\<Sum>i<length xs. ys ! i) / real (length xs)"
    using mean_nth [of ys] len by simp
  show ?thesis
    unfolding residual_sum_def
    using residual_decomposition [OF n mean_nth my, of b a]
      sq_dev_nth [of xs] sq_dev_nth [of ys] cross_dev_nth [OF len] len
    by simp
qed

lemma sq_dev_nonneg: "0 \<le> sq_dev xs"
  unfolding sq_dev_nth by (rule sum_nonneg) simp

lemma residual_sum_nonneg: "0 \<le> residual_sum xs ys b a"
  unfolding residual_sum_def by (rule sum_nonneg) simp

lemma residual_sum_difference:
  assumes len: "length ys = length xs" and n: "0 < length xs" and sxx: "sq_dev xs \<noteq> 0"
    and b0: "b0 = cross_dev xs ys / sq_dev xs" and a0: "a0 = mean ys - b0 * mean xs"
  shows "residual_sum xs ys b a - residual_sum xs ys b0 a0 =
         sq_dev xs * (b - b0)\<^sup>2 + real (length xs) * (mean ys - b * mean xs - a)\<^sup>2"
proof -
  have sxy: "cross_dev xs ys = b0 * sq_dev xs" using sxx b0 by simp
  show ?thesis
    unfolding residual_sum_decomposition [OF len n] sxy a0
    by (simp add: power2_eq_square algebra_simps)
qed

lemma cauchy_schwarz_dev:
  assumes len: "length ys = length xs" and n: "0 < length xs"
  shows "(cross_dev xs ys)\<^sup>2 \<le> sq_dev xs * sq_dev ys"
proof (cases "sq_dev xs = 0")
  case True
  have "0 \<le> residual_sum xs ys b (mean ys - b * mean xs)" for b
    by (rule residual_sum_nonneg)
  then have *: "0 \<le> sq_dev ys - 2 * b * cross_dev xs ys" for b
    unfolding residual_sum_decomposition [OF len n] by (simp add: True)
  have "cross_dev xs ys = 0"
  proof (rule ccontr)
    assume nz: "cross_dev xs ys \<noteq> 0"
    from * [of "(sq_dev ys + 1) / (2 * cross_dev xs ys)"] nz show False by simp
  qed
  with True show ?thesis by simp
next
  case False
  with sq_dev_nonneg [of xs] have pos: "0 < sq_dev xs" by simp
  define b0 where "b0 = cross_dev xs ys / sq_dev xs"
  have sxy: "cross_dev xs ys = b0 * sq_dev xs" using False by (simp add: b0_def)
  have "0 \<le> residual_sum xs ys b0 (mean ys - b0 * mean xs)"
    by (rule residual_sum_nonneg)
  then have "0 \<le> sq_dev ys - b0\<^sup>2 * sq_dev xs"
    unfolding residual_sum_decomposition [OF len n] sxy
    by (simp add: power2_eq_square algebra_simps)
  then have "b0\<^sup>2 * sq_dev xs * sq_dev xs \<le> sq_dev ys * sq_dev xs"
    using pos by (simp add: mult_right_mono)
  then show ?thesis by (simp add: sxy power2_eq_square algebra_simps)
qed

text \<open>Squares of values, and the calculator on valid input.\<close>

lemma Finite_power2: "Finite a ^ 2 = Finite (a\<^sup>2)"
  by (simp add: numeral_2_eq_2 one_number_def power2_eq_square)

lemma Undefined_power2: "Undefined ^ 2 = Undefined"
  by (simp add: numeral_2_eq_2)

lemma regress_valid:
  assumes "length ys = length xs" and "2 \<le> length xs" and "sq_dev xs \<noteq> 0"
  shows "regress ancillary (map Finite xs) (map Finite ys) =
         Inr (Finite (cross_dev xs ys / sq_dev xs),
              Finite (mean ys - cross_dev xs ys / sq_dev xs * mean xs),
              quotient (cross_dev xs ys) (sqrt (sq_dev xs * sq_dev ys)),
              fst (ancillary xs ys), snd (ancillary xs ys))"
  using assms by (simp add: regress_def finite_values_map_Finite Let_def)

text \<open>Unfolding for the evaluation of concrete inputs.\<close>

lemma sqrt_16: "sqrt 16 = 4"
  using real_sqrt_abs [of 4] by simp

lemmas regress_eval = regress_def mean_def sq_dev_def cross_dev_def quotient_def Let_def

lemmas table_eval = df_results_def unique_def select_rows_def col_dataset_def col_x_def col_y_def


section \<open>The claims about the table of results\<close>

text \<open>
  Claim C8.  The dict produced for a group \<open>g\<close> depends on the rows of \<open>g\<close> alone.
  Take two tables with the same rows labelled \<open>g\<close> (their other rows are arbitrary)
  and two sequences of labels to process, in any order, each containing \<open>g\<close>.  If both
  loops run to their end, one and the same dict is the entry labelled \<open>g\<close> of both
  result lists: it occurs in each, and every entry of either list that carries the
  label \<open>g\<close> is equal to it.
\<close>

theorem group_entry_independent:
  assumes "select_rows anscombe1 g = select_rows anscombe2 g"
    and "g \<in> set order1" and "g \<in> set order2"
    and "regression_loop linregress anscombe1 order1 [] = Inr rows1"
    and "regression_loop linregress anscombe2 order2 [] = Inr rows2"
  shows "\<exists>e. e \<in> set rows1 \<and> e \<in> set rows2 \<and>
           (\<forall>e' \<in> set rows1 \<union> set rows2.
              map_of e' ''Dataset'' = Some (Str g) \<longrightarrow> e' = e)"
proof -
  let ?e1 = "kept_entry g (projr (group_fit linregress anscombe1 g))"
  let ?e2 = "kept_entry g (projr (group_fit linregress anscombe2 g))"
  have same: "?e1 = ?e2"
    using assms(1) by (simp add: group_fit_def)
  have r1: "rows1 = map (\<lambda>n. kept_entry n (projr (group_fit linregress anscombe1 n))) order1"
    using regression_loop_Inr [OF assms(4)] by simp
  have r2: "rows2 = map (\<lambda>n. kept_entry n (projr (group_fit linregress anscombe2 n))) order2"
    using regression_loop_Inr [OF assms(5)] by simp
  have in1: "?e1 \<in> set rows1" using assms(2) by (auto simp: r1)
  have in2: "?e1 \<in> set rows2" using assms(3) same by (auto simp: r2)
  have only1: "e' = ?e1" if "e' \<in> set rows1" "map_of e' ''Dataset'' = Some (Str g)" for e'
    using that by (auto simp: r1 kept_entry_label)
  have only2: "e' = ?e1" if "e' \<in> set rows2" "map_of e' ''Dataset'' = Some (Str g)" for e'
    using that same by (auto simp: r2 kept_entry_label)
  from in1 in2 only1 only2 show ?thesis by blast
qed

text \<open>An instance: two small tables that share the group \<open>I\<close>, processed in different orders.\<close>

theorem group_entry_independent_witness:
  "regression_loop (\<lambda>xs ys. if length xs < 2 then Inl ''ValueError'' else Inr (sum_list xs, sum_list ys, 3, 5, 7))
     [(''I'', 1::int, 2), (''II'', 3, 4), (''I'', 2, 4), (''II'', 5, 1)] [''I'', ''II''] [] =
   Inr [[(''Dataset'', Str ''I''), (''Intercept'', Num (6::int)), (''Slope'', Num (3::int)), (''R-squared'', Num (9::int))],
      [(''Dataset'', Str ''II''), (''Intercept'', Num (5::int)), (''Slope'', Num (8::int)), (''R-squared'', Num (9::int))]] \<and>
   regression_loop (\<lambda>xs ys. if length xs < 2 then Inl ''ValueError'' else Inr (sum_list xs, sum_list ys, 3, 5, 7))
     [(''III'', 7::int, 7), (''I'', 1, 2), (''I'', 2, 4), (''III'', 0, 1)] [''III'', ''I''] [] =
   Inr [[(''Dataset'', Str ''III''), (''Intercept'', Num (8::int)), (''Slope'', Num (7::int)), (''R-squared'', Num (9::int))],
      [(''Dataset'', Str ''I''), (''Intercept'', Num (6::int)), (''Slope'', Num (3::int)), (''R-squared'', Num (9::int))]] \<and>
   filter (\<lambda>e. map_of e ''Dataset'' = Some (Str ''I''))
     [[(''Dataset'', Str ''I''), (''Intercept'', Num (6::int)), (''Slope'', Num (3::int)), (''R-squared'', Num (9::int))],
      [(''Dataset'', Str ''II''), (''Intercept'', Num (5::int)), (''Slope'', Num (8::int)), (''R-squared'', Num (9::int))]] =
   [[(''Dataset'', Str ''I''), (''Intercept'', Num (6::int)), (''Slope'', Num (3::int)), (''R-squared'', Num (9::int))]] \<and>
   filter (\<lambda>e. map_of e ''Dataset'' = Some (Str ''I''))
     [[(''Dataset'', Str ''III''), (''Intercept'', Num (8::int)), (''Slope'', Num (7::int)), (''R-squared'', Num (9::int))],
      [(''Dataset'', Str ''I''), (''Intercept'', Num (6::int)), (''Slope'', Num (3::int)), (''R-squared'', Num (9::int))]] =
   [[(''Dataset'', Str ''I''), (''Intercept'', Num (6::int)), (''Slope'', Num (3::int)), (''R-squared'', Num (9::int))]]"
proof -
  let ?lr = "(\<lambda>xs ys. if length xs < 2 then Inl ''ValueError'' else Inr (sum_list xs, sum_list ys, 3, 5, 7))"
  let ?t1 = "[(''I'', 1::int, 2), (''II'', 3, 4), (''I'', 2, 4), (''II'', 5, 1)]"
  let ?t2 = "[(''III'', 7::int, 7), (''I'', 1, 2), (''I'', 2, 4), (''III'', 0, 1)]"
  have sel: "select_rows ?t1 ''I'' = select_rows ?t2 ''I''"
    by (simp add: select_rows_def col_dataset_def)
  have in1: "''I'' \<in> set [''I'', ''II'']" by simp
  have in2: "''I'' \<in> set [''III'', ''I'']" by simp
  have run1: "regression_loop ?lr ?t1 [''I'', ''II''] [] =
    Inr [[(''Dataset'', Str ''I''), (''Intercept'', Num (6::int)), (''Slope'', Num (3::int)), (''R-squared'', Num (9::int))],
      [(''Dataset'', Str ''II''), (''Intercept'', Num (5::int)), (''Slope'', Num (8::int)), (''R-squared'', Num (9::int))]]"
    by (simp add: select_rows_def col_dataset_def col_x_def col_y_def)
  have run2: "regression_loop ?lr ?t2 [''III'', ''I''] [] =
    Inr [[(''Dataset'', Str ''III''), (''Intercept'', Num (8::int)), (''Slope'', Num (7::int)), (''R-squared'', Num (9::int))],
      [(''Dataset'', Str ''I''), (''Intercept'', Num (6::int)), (''Slope'', Num (3::int)), (''R-squared'', Num (9::int))]]"
    by (simp add: select_rows_def col_dataset_def col_x_def col_y_def)
  from run1 run2 group_entry_independent [OF sel in1 in2 run1 run2]
  show ?thesis by simp
qed

text \<open>
  Claim C9.  When the table of results is built, its \<^verbatim>\<open>Dataset\<close> column lists the
  labels of the source table: no label twice, every label of the source and no other,
  as many rows as there are distinct labels, and a label whose first occurrence in the
  source comes earlier stands in an earlier row.
\<close>

theorem results_one_row_per_label:
  assumes "df_results linregress anscombe = Inr rows"
  shows "\<exists>names.
           map (\<lambda>e. map_of e ''Dataset'') rows = map (\<lambda>n. Some (Str n)) names \<and>
           distinct names \<and>
           set names = set (map col_dataset anscombe) \<and>
           length rows = card (set (map col_dataset anscombe)) \<and>
           sorted_wrt (\<lambda>a b. first_occurrence a (map col_dataset anscombe)
                             < first_occurrence b (map col_dataset anscombe)) names"
proof -
  let ?labels = "map col_dataset anscombe"
  from assms have "rows =
      map (\<lambda>n. kept_entry n (projr (group_fit linregress anscombe n))) (unique ?labels)"
    using regression_loop_Inr [of linregress anscombe "unique ?labels" "[]" rows]
    by (simp add: df_results_def)
  then have "map (\<lambda>e. map_of e ''Dataset'') rows = map (\<lambda>n. Some (Str n)) (unique ?labels)"
    and "length rows = length (unique ?labels)"
    by (simp_all add: kept_entry_label comp_def)
  moreover have "length (unique ?labels) = card (set ?labels)"
    using distinct_card [OF distinct_unique, of ?labels] by (simp add: set_unique)
  ultimately show ?thesis
    using distinct_unique [of ?labels] set_unique [of ?labels] sorted_unique [of ?labels]
    by (intro exI [of _ "unique ?labels"]) simp
qed

text \<open>An instance: a table whose two labels alternate.\<close>

theorem results_one_row_per_label_witness:
  "df_results (\<lambda>xs ys. if length xs < 2 then Inl ''ValueError'' else Inr (sum_list xs, sum_list ys, 3, 5, 7))
     [(''I'', 1::int, 2), (''II'', 3, 4), (''I'', 2, 4), (''II'', 5, 1)] =
   Inr [[(''Dataset'', Str ''I''), (''Intercept'', Num (6::int)), (''Slope'', Num (3::int)), (''R-squared'', Num (9::int))],
      [(''Dataset'', Str ''II''), (''Intercept'', Num (5::int)), (''Slope'', Num (8::int)), (''R-squared'', Num (9::int))]] \<and>
   (\<exists>names.
      map (\<lambda>e. map_of e ''Dataset'')
        [[(''Dataset'', Str ''I''), (''Intercept'', Num (6::int)), (''Slope'', Num (3::int)), (''R-squared'', Num (9::int))],
      [(''Dataset'', Str ''II''), (''Intercept'', Num (5::int)), (''Slope'', Num (8::int)), (''R-squared'', Num (9::int))]] =
        map (\<lambda>n. Some (Str n)) names \<and>
      distinct names \<and>
      set names = set (map col_dataset [(''I'', 1::int, 2), (''II'', 3, 4), (''I'', 2, 4), (''II'', 5, 1)]) \<and>
      length [[(''Dataset'', Str ''I''), (''Intercept'', Num (6::int)), (''Slope'', Num (3::int)), (''R-squared'', Num (9::int))],
      [(''Dataset'', Str ''II''), (''Intercept'', Num (5::int)), (''Slope'', Num (8::int)), (''R-squared'', Num (9::int))]] =
        card (set (map col_dataset [(''I'', 1::int, 2), (''II'', 3, 4), (''I'', 2, 4), (''II'', 5, 1)])) \<and>
      sorted_wrt (\<lambda>a b. first_occurrence a (map col_dataset [(''I'', 1::int, 2), (''II'', 3, 4), (''I'', 2, 4), (''II'', 5, 1)])
                        < first_occurrence b (map col_dataset [(''I'', 1::int, 2), (''II'', 3, 4), (''I'', 2, 4), (''II'', 5, 1)])) names)"
proof -
  have run: "df_results (\<lambda>xs ys. if length xs < 2 then Inl ''ValueError'' else Inr (sum_list xs, sum_list ys, 3, 5, 7))
     [(''I'', 1::int, 2), (''II'', 3, 4), (''I'', 2, 4), (''II'', 5, 1)] =
    Inr [[(''Dataset'', Str ''I''), (''Intercept'', Num (6::int)), (''Slope'', Num (3::int)), (''R-squared'', Num (9::int))],
      [(''Dataset'', Str ''II''), (''Intercept'', Num (5::int)), (''Slope'', Num (8::int)), (''R-squared'', Num (9::int))]]"
    by (simp add: df_results_def unique_def select_rows_def col_dataset_def col_x_def col_y_def)
  from run results_one_row_per_label [OF run]
  show ?thesis by (intro conjI)
qed

text \<open>
  Claim C10.  Every entry of the table of results has exactly the keys
  \<^verbatim>\<open>Dataset\<close>, \<^verbatim>\<open>Intercept\<close>, \<^verbatim>\<open>Slope\<close> and \<^verbatim>\<open>R-squared\<close>, and the
  p-value and the standard error have no influence on it: a regression routine that
  differs from the given one in those two values only yields the same table.
\<close>

theorem entry_fields:
  assumes "df_results linregress anscombe = Inr rows"
    and "\<forall>xs ys. without_p_and_stderr (linregress xs ys) = without_p_and_stderr (linregress' xs ys)"
  shows "(\<forall>e \<in> set rows.
            map fst e = [''Dataset'', ''Intercept'', ''Slope'', ''R-squared'']) \<and>
         df_results linregress' anscombe = Inr rows"
proof -
  from assms(1) have "rows =
      map (\<lambda>n. kept_entry n (projr (group_fit linregress anscombe n)))
        (unique (map col_dataset anscombe))"
    using regression_loop_Inr [of linregress anscombe "unique (map col_dataset anscombe)" "[]" rows]
    by (simp add: df_results_def)
  then have "\<forall>e \<in> set rows. map fst e = [''Dataset'', ''Intercept'', ''Slope'', ''R-squared'']"
    by (auto simp: kept_entry_keys)
  moreover from assms(2) have "df_results linregress' anscombe = df_results linregress anscombe"
    unfolding df_results_def by (intro regression_loop_cong [symmetric]) simp
  ultimately show ?thesis using assms(1) by simp
qed

text \<open>An instance: two routines that differ in p-value and standard error only.\<close>

theorem entry_fields_witness:
  "df_results (\<lambda>xs ys. if length xs < 2 then Inl ''ValueError'' else Inr (sum_list xs, sum_list ys, 3, 5, 7))
     [(''I'', 1::int, 2), (''II'', 3, 4), (''I'', 2, 4), (''II'', 5, 1)] =
   Inr [[(''Dataset'', Str ''I''), (''Intercept'', Num (6::int)), (''Slope'', Num (3::int)), (''R-squared'', Num (9::int))],
      [(''Dataset'', Str ''II''), (''Intercept'', Num (5::int)), (''Slope'', Num (8::int)), (''R-squared'', Num (9::int))]] \<and>
   map (map fst) [[(''Dataset'', Str ''I''), (''Intercept'', Num (6::int)), (''Slope'', Num (3::int)), (''R-squared'', Num (9::int))],
      [(''Dataset'', Str ''II''), (''Intercept'', Num (5::int)), (''Slope'', Num (8::int)), (''R-squared'', Num (9::int))]] =
     [[''Dataset'', ''Intercept'', ''Slope'', ''R-squared''],
      [''Dataset'', ''Intercept'', ''Slope'', ''R-squared'']] \<and>
   df_results (\<lambda>xs ys. if length xs < 2 then Inl ''ValueError'' else Inr (sum_list xs, sum_list ys, 3, 0, 1))
     [(''I'', 1::int, 2), (''II'', 3, 4), (''I'', 2, 4), (''II'', 5, 1)] =
   Inr [[(''Dataset'', Str ''I''), (''Intercept'', Num (6::int)), (''Slope'', Num (3::int)), (''R-squared'', Num (9::int))],
      [(''Dataset'', Str ''II''), (''Intercept'', Num (5::int)), (''Slope'', Num (8::int)), (''R-squared'', Num (9::int))]]"
proof -
  let ?lr = "(\<lambda>xs ys. if length xs < 2 then Inl ''ValueError'' else Inr (sum_list xs, sum_list ys, 3, 5, 7))"
  let ?lr' = "(\<lambda>xs ys. if length xs < 2 then Inl ''ValueError'' else Inr (sum_list xs, sum_list ys, 3, 0, 1))"
  let ?t = "[(''I'', 1::int, 2), (''II'', 3, 4), (''I'', 2, 4), (''II'', 5, 1)]"
  have run: "df_results ?lr ?t =
    Inr [[(''Dataset'', Str ''I''), (''Intercept'', Num (6::int)), (''Slope'', Num (3::int)), (''R-squared'', Num (9::int))],
      [(''Dataset'', Str ''II''), (''Intercept'', Num (5::int)), (''Slope'', Num (8::int)), (''R-squared'', Num (9::int))]]"
    by (simp add: df_results_def unique_def select_rows_def col_dataset_def col_x_def col_y_def)
  have agree: "\<forall>xs ys. without_p_and_stderr (?lr xs ys) = without_p_and_stderr (?lr' xs ys)"
    by (simp add: without_p_and_stderr_def)
  from run entry_fields [OF run agree]
  show ?thesis by (intro conjI) simp_all
qed

section \<open>The claims about the values of the regression\<close>

text \<open>
  Claim C1.  Let \<open>xs\<close> and \<open>ys\<close> be sequences of real numbers of equal length
  \<open>n \<ge> 2\<close>, \<open>xs\<close> with non-zero variance, and let \<open>mean_x\<close>, \<open>mean_y\<close> be their
  arithmetic means.  The calculator returns the slope
  \<open>\<Sigma>(x\<^sub>i - mean_x)(y\<^sub>i - mean_y) / \<Sigma>(x\<^sub>i - mean_x)\<^sup>2\<close>, the intercept
  \<open>mean_y - slope \<sqdot> mean_x\<close> and
  \<open>r = \<Sigma>(x\<^sub>i - mean_x)(y\<^sub>i - mean_y) / sqrt (\<Sigma>(x\<^sub>i - mean_x)\<^sup>2 \<sqdot> \<Sigma>(y\<^sub>i - mean_y)\<^sup>2)\<close>.
  When these are the x and y columns of the group \<open>g\<close> of a table and the script builds
  its table of results, the one entry for \<open>g\<close> holds that intercept under
  \<^verbatim>\<open>Intercept\<close>, that slope under \<^verbatim>\<open>Slope\<close> and the square of \<open>r\<close> under
  \<^verbatim>\<open>R-squared\<close>.
\<close>

theorem regression_formulae:
  fixes xs ys :: "real list"
  assumes len: "length ys = length xs" and n: "2 \<le> length xs" and var: "variance xs \<noteq> 0"
    and mx: "mean_x = (\<Sum>i<length xs. xs ! i) / real (length xs)"
    and my: "mean_y = (\<Sum>i<length xs. ys ! i) / real (length xs)"
    and sxy: "sxy = (\<Sum>i<length xs. (xs ! i - mean_x) * (ys ! i - mean_y))"
    and sxx: "sxx = (\<Sum>i<length xs. (xs ! i - mean_x)\<^sup>2)"
    and syy: "syy = (\<Sum>i<length xs. (ys ! i - mean_y)\<^sup>2)"
    and slope: "slope = sxy / sxx"
    and intercept: "intercept = mean_y - slope * mean_x"
    and r: "r = quotient sxy (sqrt (sxx * syy))"
    and group_x: "map col_x (select_rows anscombe g) = map Finite xs"
    and group_y: "map col_y (select_rows anscombe g) = map Finite ys"
    and run: "df_results (regress ancillary) anscombe = Inr rows"
  shows "regress ancillary (map Finite xs) (map Finite ys) =
           Inr (Finite slope, Finite intercept, r,
                fst (ancillary xs ys), snd (ancillary xs ys)) \<and>
         filter (\<lambda>e. map_of e ''Dataset'' = Some (Str g)) rows =
           [[(''Dataset'', Str g),
             (''Intercept'', Num (Finite intercept)),
             (''Slope'', Num (Finite slope)),
             (''R-squared'', Num (r ^ 2))]]"
proof -
  have mean_x: "mean_x = mean xs" by (simp add: mx mean_nth)
  have mean_y: "mean_y = mean ys" using len mean_nth [of ys] by (simp add: my)
  have sxx': "sxx = sq_dev xs" by (simp add: sxx mean_x sq_dev_nth)
  have syy': "syy = sq_dev ys" using len sq_dev_nth [of ys] by (simp add: syy mean_y)
  have sxy': "sxy = cross_dev xs ys" by (simp add: sxy mean_x mean_y cross_dev_nth [OF len])
  from var n have nz: "sq_dev xs \<noteq> 0" by (auto simp: variance_sq_dev)
  have fit: "regress ancillary (map Finite xs) (map Finite ys) =
      Inr (Finite slope, Finite intercept, r, fst (ancillary xs ys), snd (ancillary xs ys))"
    unfolding regress_valid [OF len n nz]
    by (simp add: slope intercept r sxx' syy' sxy' mean_x mean_y)
  have "length (select_rows anscombe g) = length xs"
    using arg_cong [OF group_x, of length] by simp
  with n have "select_rows anscombe g \<noteq> []" by auto
  then obtain s where "s \<in> set (select_rows anscombe g)" by (cases "select_rows anscombe g") auto
  then have g: "g \<in> set (map col_dataset anscombe)" by (auto simp: select_rows_def)
  have "group_fit (regress ancillary) anscombe g =
      Inr (Finite slope, Finite intercept, r, fst (ancillary xs ys), snd (ancillary xs ys))"
    by (simp add: group_fit_def group_x group_y fit)
  from df_results_entry [OF run g this] fit show ?thesis by (simp add: kept_entry_def)
qed

text \<open>An instance: a table of two groups, the first with three samples.\<close>

theorem regression_formulae_witness:
  "df_results (regress no_ancillary)
     [(''I'', Finite 0, Finite 1), (''II'', Finite 1, Finite 1), (''I'', Finite 1, Finite 3),
      (''I'', Finite 2, Finite 2), (''II'', Finite 3, Finite 5)] =
     Inr [[(''Dataset'', Str ''I''), (''Intercept'', Num (Finite (3 / 2))),
           (''Slope'', Num (Finite (1 / 2))), (''R-squared'', Num (Finite (1 / 4)))],
          [(''Dataset'', Str ''II''), (''Intercept'', Num (Finite (- 1))),
           (''Slope'', Num (Finite 2)), (''R-squared'', Num (Finite 1))]] \<and>
   regress no_ancillary [Finite 0, Finite 1, Finite 2] [Finite 1, Finite 3, Finite 2] =
     Inr (Finite (1 / 2), Finite (3 / 2), Finite (1 / 2), Undefined, Undefined) \<and>
   filter (\<lambda>e. map_of e ''Dataset'' = Some (Str ''I''))
     [[(''Dataset'', Str ''I''), (''Intercept'', Num (Finite (3 / 2))),
       (''Slope'', Num (Finite (1 / 2))), (''R-squared'', Num (Finite (1 / 4)))],
      [(''Dataset'', Str ''II''), (''Intercept'', Num (Finite (- 1))),
       (''Slope'', Num (Finite 2)), (''R-squared'', Num (Finite 1))]] =
     [[(''Dataset'', Str ''I''), (''Intercept'', Num (Finite (3 / 2))),
       (''Slope'', Num (Finite (1 / 2))), (''R-squared'', Num (Finite (1 / 4)))]]"
proof -
  let ?t = "[(''I'', Finite 0, Finite 1), (''II'', Finite 1, Finite 1), (''I'', Finite 1, Finite 3),
      (''I'', Finite 2, Finite 2), (''II'', Finite 3, Finite 5)]"
  have len: "length [1, 3, 2 :: real] = length [0, 1, 2 :: real]" by simp
  have n: "2 \<le> length [0, 1, 2 :: real]" by simp
  have var: "variance [0, 1, 2] \<noteq> 0" by (simp add: variance_def lessThan_Suc)
  have gx: "map col_x (select_rows ?t ''I'') = map Finite [0, 1, 2]"
    by (simp add: select_rows_def col_dataset_def col_x_def)
  have gy: "map col_y (select_rows ?t ''I'') = map Finite [1, 3, 2]"
    by (simp add: select_rows_def col_dataset_def col_y_def)
  have fit1: "regress no_ancillary [Finite 0, Finite 1, Finite 2] [Finite 1, Finite 3, Finite 2] =
     Inr (Finite (1 / 2), Finite (3 / 2), Finite (1 / 2), Undefined, Undefined)"
    by (simp add: regress_eval no_ancillary_def)
  have fit2: "regress no_ancillary [Finite 1, Finite 3] [Finite 1, Finite 5] =
     Inr (Finite 2, Finite (- 1), Finite 1, Undefined, Undefined)"
    by (simp add: regress_eval no_ancillary_def sqrt_16)
  have run: "df_results (regress no_ancillary) ?t =
     Inr [[(''Dataset'', Str ''I''), (''Intercept'', Num (Finite (3 / 2))),
           (''Slope'', Num (Finite (1 / 2))), (''R-squared'', Num (Finite (1 / 4)))],
          [(''Dataset'', Str ''II''), (''Intercept'', Num (Finite (- 1))),
           (''Slope'', Num (Finite 2)), (''R-squared'', Num (Finite 1))]]"
    by (simp add: table_eval fit1 fit2 Finite_power2 power2_eq_square)
  from regression_formulae [OF len n var refl refl refl refl refl refl refl refl gx gy run]
    run fit1
  show ?thesis by simp
qed

text \<open>
  Claim C4, as amended.  For every valid input (equal lengths, \<open>n \<ge> 2\<close>, non-zero
  x-variance) the calculator returns a slope and an intercept that are numbers, and
  their line is the unique one with the least sum of squared vertical residuals: no
  line has a smaller sum, and a line whose sum is not larger is this line.  If the y
  values do not all coincide (non-zero y-variance), the square of \<open>r\<close> is a number
  between 0 and 1; if they do, \<open>r\<close> is the quotient 0/0 and its square is undefined.
\<close>

theorem least_squares_line:
  fixes xs ys :: "real list"
  assumes len: "length ys = length xs" and n: "2 \<le> length xs" and var: "variance xs \<noteq> 0"
  shows "\<exists>slope intercept r p_value std_err.
           regress ancillary (map Finite xs) (map Finite ys) =
             Inr (Finite slope, Finite intercept, r, p_value, std_err) \<and>
           (\<forall>slope' intercept'.
              residual_sum xs ys slope intercept \<le> residual_sum xs ys slope' intercept' \<and>
              (residual_sum xs ys slope' intercept' \<le> residual_sum xs ys slope intercept
                 \<longrightarrow> slope' = slope \<and> intercept' = intercept)) \<and>
           (variance ys \<noteq> 0 \<longrightarrow> in_unit_interval (r ^ 2)) \<and>
           (variance ys = 0 \<longrightarrow> r ^ 2 = Undefined)"
proof -
  define b0 where "b0 = cross_dev xs ys / sq_dev xs"
  define a0 where "a0 = mean ys - b0 * mean xs"
  define r where "r = quotient (cross_dev xs ys) (sqrt (sq_dev xs * sq_dev ys))"
  from n have pos: "0 < length xs" by linarith
  from var n have nz: "sq_dev xs \<noteq> 0" by (auto simp: variance_sq_dev)
  with sq_dev_nonneg [of xs] have sxx_pos: "0 < sq_dev xs" by simp
  have fit: "regress ancillary (map Finite xs) (map Finite ys) =
      Inr (Finite b0, Finite a0, r, fst (ancillary xs ys), snd (ancillary xs ys))"
    unfolding regress_valid [OF len n nz] by (simp add: b0_def a0_def r_def)
  have diff: "residual_sum xs ys b a - residual_sum xs ys b0 a0 =
      sq_dev xs * (b - b0)\<^sup>2 + real (length xs) * (mean ys - b * mean xs - a)\<^sup>2" for b a
    by (rule residual_sum_difference [OF len pos nz b0_def a0_def])
  have least: "residual_sum xs ys b0 a0 \<le> residual_sum xs ys b a" for b a
  proof -
    have "0 \<le> sq_dev xs * (b - b0)\<^sup>2 + real (length xs) * (mean ys - b * mean xs - a)\<^sup>2"
      using sxx_pos by (intro add_nonneg_nonneg mult_nonneg_nonneg) simp_all
    with diff [of b a] show ?thesis by simp
  qed
  have only: "b = b0 \<and> a = a0" if "residual_sum xs ys b a \<le> residual_sum xs ys b0 a0" for b a
  proof -
    have t1: "0 \<le> sq_dev xs * (b - b0)\<^sup>2" using sxx_pos by simp
    have t2: "0 \<le> real (length xs) * (mean ys - b * mean xs - a)\<^sup>2" by simp
    from that diff [of b a]
    have "sq_dev xs * (b - b0)\<^sup>2 + real (length xs) * (mean ys - b * mean xs - a)\<^sup>2 \<le> 0"
      by simp
    with t1 t2 have "sq_dev xs * (b - b0)\<^sup>2 = 0"
      and "real (length xs) * (mean ys - b * mean xs - a)\<^sup>2 = 0"
      by linarith+
    with sxx_pos pos have "b = b0" and "mean ys - b * mean xs - a = 0" by simp_all
    then show ?thesis by (simp add: a0_def)
  qed
  have unit: "in_unit_interval (r ^ 2)" if "variance ys \<noteq> 0"
  proof -
    from that n len have "sq_dev ys \<noteq> 0" by (auto simp: variance_sq_dev)
    with sq_dev_nonneg [of ys] have syy_pos: "0 < sq_dev ys" by simp
    from sxx_pos syy_pos have prod_pos: "0 < sq_dev xs * sq_dev ys" by simp
    from sxx_pos syy_pos have "sqrt (sq_dev xs * sq_dev ys) \<noteq> 0" by simp
    then have r: "r ^ 2 = Finite ((cross_dev xs ys / sqrt (sq_dev xs * sq_dev ys))\<^sup>2)"
      by (simp add: r_def quotient_def Finite_power2)
    have "(cross_dev xs ys / sqrt (sq_dev xs * sq_dev ys))\<^sup>2 =
        (cross_dev xs ys)\<^sup>2 / (sq_dev xs * sq_dev ys)"
      using prod_pos by (simp add: power_divide)
    moreover have "(cross_dev xs ys)\<^sup>2 \<le> sq_dev xs * sq_dev ys"
      by (rule cauchy_schwarz_dev [OF len pos])
    ultimately show ?thesis using prod_pos by (simp add: r)
  qed
  have undef: "r ^ 2 = Undefined" if "variance ys = 0"
  proof -
    from that n len have "sq_dev ys = 0" by (auto simp: variance_sq_dev)
    then show ?thesis by (simp add: r_def quotient_def Undefined_power2)
  qed
  from fit least only unit undef show ?thesis by blast
qed

text \<open>An instance: three samples that lie on no line.\<close>

theorem least_squares_line_witness:
  "regress no_ancillary [Finite 0, Finite 1, Finite 2] [Finite 1, Finite 3, Finite 2] =
     Inr (Finite (1 / 2), Finite (3 / 2), Finite (1 / 2), Undefined, Undefined) \<and>
   residual_sum [0, 1, 2] [1, 3, 2] (1 / 2) (3 / 2) \<le> residual_sum [0, 1, 2] [1, 3, 2] 1 1 \<and>
   in_unit_interval (Finite (1 / 2) ^ 2)"
proof -
  have len: "length [1, 3, 2 :: real] = length [0, 1, 2 :: real]" by simp
  have n: "2 \<le> length [0, 1, 2 :: real]" by simp
  have var: "variance [0, 1, 2] \<noteq> 0" by (simp add: variance_def lessThan_Suc)
  have var_y: "variance [1, 3, 2] \<noteq> 0" by (simp add: variance_def lessThan_Suc)
  have fit: "regress no_ancillary [Finite 0, Finite 1, Finite 2] [Finite 1, Finite 3, Finite 2] =
     Inr (Finite (1 / 2), Finite (3 / 2), Finite (1 / 2), Undefined, Undefined)"
    by (simp add: regress_eval no_ancillary_def)
  from least_squares_line [OF len n var, of no_ancillary]
  obtain slope intercept r p_value std_err
    where res: "regress no_ancillary (map Finite [0, 1, 2]) (map Finite [1, 3, 2]) =
        Inr (Finite slope, Finite intercept, r, p_value, std_err)"
      and least: "\<And>slope' intercept'.
        residual_sum [0, 1, 2] [1, 3, 2] slope intercept
          \<le> residual_sum [0, 1, 2] [1, 3, 2] slope' intercept'"
      and unit: "variance [1, 3, 2] \<noteq> 0 \<longrightarrow> in_unit_interval (r ^ 2)"
    by blast
  from res fit have "slope = 1 / 2" and "intercept = 3 / 2" and "r = Finite (1 / 2)"
    by simp_all
  with least [of 1 1] unit var_y fit show ?thesis by simp
qed

text \<open>
  Without the condition on the y values the bound on \<^verbatim>\<open>R-squared\<close> fails: the input
  \<open>xs = [1, 2, 3]\<close>, \<open>ys = [5, 5, 5]\<close> is valid, the calculator returns the slope 0
  and the intercept 5, and \<^verbatim>\<open>R-squared\<close> is undefined, hence no number of the
  interval from 0 to 1.
\<close>

theorem constant_y_undefined:
  "regress no_ancillary [Finite 1, Finite 2, Finite 3] [Finite 5, Finite 5, Finite 5] =
     Inr (Finite 0, Finite 5, Undefined, Undefined, Undefined) \<and>
   df_results (regress no_ancillary)
     [(''I'', Finite 1, Finite 5), (''I'', Finite 2, Finite 5), (''I'', Finite 3, Finite 5)] =
     Inr [[(''Dataset'', Str ''I''),
           (''Intercept'', Num (Finite 5)),
           (''Slope'', Num (Finite 0)),
           (''R-squared'', Num Undefined)]] \<and>
   \<not> in_unit_interval Undefined"
proof -
  have fit: "regress no_ancillary [Finite 1, Finite 2, Finite 3] [Finite 5, Finite 5, Finite 5] =
     Inr (Finite 0, Finite 5, Undefined, Undefined, Undefined)"
    by (simp add: regress_eval no_ancillary_def)
  then show ?thesis
    by (simp add: table_eval Undefined_power2)
qed

text \<open>
  Claim C5.  For \<open>xs = [1, 2, 3]\<close> and \<open>ys = [2, 4, 6]\<close> the calculator succeeds with
  slope 2, intercept 0 and \<open>r = 1\<close>, and the table the script builds for this one
  group holds the intercept 0, the slope 2 and \<^verbatim>\<open>R-squared\<close> 1.
\<close>

theorem perfect_fit:
  "regress ancillary [Finite 1, Finite 2, Finite 3] [Finite 2, Finite 4, Finite 6] =
     Inr (Finite 2, Finite 0, Finite 1,
          fst (ancillary [1, 2, 3] [2, 4, 6]), snd (ancillary [1, 2, 3] [2, 4, 6])) \<and>
   df_results (regress ancillary)
     [(''I'', Finite 1, Finite 2), (''I'', Finite 2, Finite 4), (''I'', Finite 3, Finite 6)] =
     Inr [[(''Dataset'', Str ''I''),
           (''Intercept'', Num (Finite 0)),
           (''Slope'', Num (Finite 2)),
           (''R-squared'', Num (Finite 1))]]"
proof -
  have fit: "regress ancillary [Finite 1, Finite 2, Finite 3] [Finite 2, Finite 4, Finite 6] =
     Inr (Finite 2, Finite 0, Finite 1,
          fst (ancillary [1, 2, 3] [2, 4, 6]), snd (ancillary [1, 2, 3] [2, 4, 6]))"
    by (simp add: regress_eval sqrt_16)
  then show ?thesis
    by (simp add: table_eval Finite_power2)
qed


end
